theory Spec2Isabelle
  imports Complex_Main
begin

section \<open>Numbers\<close>

text \<open>
  The engine computes with JavaScript numbers. Finite numbers are modelled as
  \<^typ>\<open>real\<close> (no rounding). The two places where the source itself produces a
  non-finite number are kept as values: the initial \<open>lastSpikeTime = -Infinity\<close>, and the
  quotients \<open>1000 / timeSinceSpike\<close> and \<open>totalActivity / allNeurons.size\<close>, whose
  divisor can be zero. A zero divisor is the positive zero here (it is \<open>x - x\<close> or a
  map size).

  Sums and products are exact here, while the code rounds each of them to the nearest
  double: an increment below half a unit in the last place of \<open>V\<close> leaves \<open>V\<close> as it is
  in the code (a fast-spiking interneuron at rest: \<open>-65 + 4.7e-16 = -65\<close>). A statement
  below that compares a sum with one of its operands is therefore an inequality that
  rounding keeps (\<open>\<le>\<close>), or is about a concrete input on which the code's doubles
  agree.
\<close>

datatype jsnum = Num real | PosInf | NegInf | NaN

fun js_minus :: "jsnum \<Rightarrow> jsnum \<Rightarrow> jsnum" where
  "js_minus (Num x) (Num y) = Num (x - y)"
| "js_minus NaN _ = NaN"
| "js_minus _ NaN = NaN"
| "js_minus PosInf PosInf = NaN"
| "js_minus NegInf NegInf = NaN"
| "js_minus PosInf _ = PosInf"
| "js_minus NegInf _ = NegInf"
| "js_minus (Num x) PosInf = NegInf"
| "js_minus (Num x) NegInf = PosInf"

fun js_less :: "jsnum \<Rightarrow> jsnum \<Rightarrow> bool" where
  "js_less (Num x) (Num y) = (x < y)"
| "js_less NaN _ = False"
| "js_less _ NaN = False"
| "js_less NegInf NegInf = False"
| "js_less NegInf _ = True"
| "js_less PosInf _ = False"
| "js_less (Num x) PosInf = True"
| "js_less (Num x) NegInf = False"

text \<open>\<open>x / y\<close> for finite \<open>x\<close> and a divisor that is finite or infinite.\<close>

fun js_divide :: "real \<Rightarrow> jsnum \<Rightarrow> jsnum" where
  "js_divide x (Num y) =
     (if y \<noteq> 0 then Num (x / y)
      else if x = 0 then NaN
      else if 0 < x then PosInf else NegInf)"
| "js_divide x PosInf = Num 0"
| "js_divide x NegInf = Num 0"
| "js_divide x NaN = NaN"

section \<open>BiologicalNeuron\<close>

text \<open>
  Field names carry a prefix where the source's name is a single letter
  (\<open>C\<close>, \<open>a\<close>, \<open>b\<close>, \<open>V\<close>, \<open>w\<close>, \<open>n\<close>, \<open>m\<close>, \<open>h\<close>) or is used by two
  interfaces.
\<close>

record NeuronParameters =
  p_C :: real
  p_gL :: real
  p_EL :: real
  p_VT :: real
  p_deltaT :: real
  p_a :: real
  p_b :: real
  p_tau_w :: real
  p_Vr :: real
  p_Vpeak :: real
  p_tau_plus :: real
  p_tau_minus :: real
  p_A_plus :: real
  p_A_minus :: real
  p_g_Na :: "real option"
  p_g_K :: "real option"
  p_E_Na :: "real option"
  p_E_K :: "real option"

datatype neuron_type = pyramidal | interneuron | sensory | motor

record QueuedInput =
  in_time :: real
  in_weight :: real

record BiologicalNeuron =
  nid :: string
  ntype :: neuron_type
  params :: NeuronParameters
  n_V :: real
  n_w :: real
  lastSpikeTime :: jsnum
  spikeTrace :: real
  currentTime :: real
  n_n :: real
  n_m :: real
  n_h :: real
  synapticCurrent :: real
  excitatoryInputs :: "QueuedInput list"
  inhibitoryInputs :: "QueuedInput list"

text \<open>\<open>initializeByType\<close>: the type-specific overrides of the preset.\<close>

fun initializeByType :: "neuron_type \<Rightarrow> NeuronParameters \<Rightarrow> NeuronParameters" where
  "initializeByType pyramidal p = p\<lparr>p_a := 0.02, p_b := 5\<rparr>"
| "initializeByType interneuron p = p\<lparr>p_a := 0.1, p_b := 0.2, p_tau_w := 10\<rparr>"
| "initializeByType sensory p = p\<lparr>p_a := 0.02, p_b := 10, p_deltaT := 3\<rparr>"
| "initializeByType motor p = p\<lparr>p_a := 0.03, p_b := 8\<rparr>"

text \<open>The constructor: field initialisers, then \<open>V = EL\<close>, \<open>w = 0\<close> and the overrides.\<close>

definition newNeuron :: "string \<Rightarrow> neuron_type \<Rightarrow> NeuronParameters \<Rightarrow> BiologicalNeuron" where
  "newNeuron i t p =
     \<lparr> nid = i, ntype = t, params = initializeByType t p,
       n_V = p_EL p, n_w = 0, lastSpikeTime = NegInf, spikeTrace = 0, currentTime = 0,
       n_n = 0, n_m = 0, n_h = 1, synapticCurrent = 0,
       excitatoryInputs = [], inhibitoryInputs = [] \<rparr>"

definition RegularSpiking :: NeuronParameters where
  "RegularSpiking =
     \<lparr> p_C = 200, p_gL = 10, p_EL = -70, p_VT = -50, p_deltaT = 2,
       p_a = 2, p_b = 5, p_tau_w = 30, p_Vr = -58, p_Vpeak = 20,
       p_tau_plus = 20, p_tau_minus = 20, p_A_plus = 0.01, p_A_minus = 0.012,
       p_g_Na = None, p_g_K = None, p_E_Na = None, p_E_K = None \<rparr>"

definition FastSpiking :: NeuronParameters where
  "FastSpiking =
     \<lparr> p_C = 100, p_gL = 10, p_EL = -65, p_VT = -50, p_deltaT = 0.5,
       p_a = 10, p_b = 0.2, p_tau_w = 10, p_Vr = -65, p_Vpeak = 20,
       p_tau_plus = 20, p_tau_minus = 20, p_A_plus = 0.01, p_A_minus = 0.012,
       p_g_Na = None, p_g_K = None, p_E_Na = None, p_E_K = None \<rparr>"

definition Bursting :: NeuronParameters where
  "Bursting =
     \<lparr> p_C = 200, p_gL = 10, p_EL = -60, p_VT = -50, p_deltaT = 2,
       p_a = 2, p_b = 10, p_tau_w = 120, p_Vr = -46, p_Vpeak = 20,
       p_tau_plus = 20, p_tau_minus = 20, p_A_plus = 0.01, p_A_minus = 0.012,
       p_g_Na = None, p_g_K = None, p_E_Na = None, p_E_K = None \<rparr>"

definition Adapting :: NeuronParameters where
  "Adapting =
     \<lparr> p_C = 200, p_gL = 12, p_EL = -70, p_VT = -50, p_deltaT = 2,
       p_a = 20, p_b = 5, p_tau_w = 100, p_Vr = -55, p_Vpeak = 20,
       p_tau_plus = 20, p_tau_minus = 20, p_A_plus = 0.01, p_A_minus = 0.012,
       p_g_Na = None, p_g_K = None, p_E_Na = None, p_E_K = None \<rparr>"

subsection \<open>updateAdEx\<close>

text \<open>
  The spike check of \<open>updateAdEx\<close> (the \<open>if\<close> at its entry): the neuron after the check.
\<close>

definition spikeCheck :: "BiologicalNeuron \<Rightarrow> BiologicalNeuron" where
  "spikeCheck nr =
     (if n_V nr > p_Vpeak (params nr)
      then nr\<lparr> n_V := p_Vr (params nr),
               n_w := n_w nr + p_b (params nr),
               lastSpikeTime := Num (currentTime nr),
               spikeTrace := 1 \<rparr>
      else nr)"

text \<open>The two derivatives, read after the spike check.\<close>

definition adex_dV :: "real \<Rightarrow> BiologicalNeuron \<Rightarrow> real" where
  "adex_dV I_ext nr =
     (- p_gL (params nr) * (n_V nr - p_EL (params nr))
      + p_gL (params nr) * p_deltaT (params nr)
          * exp ((n_V nr - p_VT (params nr)) / p_deltaT (params nr))
      - n_w nr + I_ext + synapticCurrent nr) / p_C (params nr)"

definition adex_dw :: "BiologicalNeuron \<Rightarrow> real" where
  "adex_dw nr = (p_a (params nr) * (n_V nr - p_EL (params nr)) - n_w nr) / p_tau_w (params nr)"

text \<open>
  \<open>updateAdEx(dt, I_ext)\<close>: the returned flag and the neuron after the call. The Euler
  step, the trace decay and the current decay run on every call, also on one that
  detected a spike. The sums \<open>V + dV \<sqdot> dt\<close> and \<open>w + dw \<sqdot> dt\<close> are exact here and rounded
  in the code; the quotients are the code's for non-zero \<open>C\<close>, \<open>deltaT\<close>, \<open>tau_w\<close> and
  \<open>tau_plus\<close>, as in every preset.
\<close>

definition updateAdEx :: "real \<Rightarrow> real \<Rightarrow> BiologicalNeuron \<Rightarrow> bool \<times> BiologicalNeuron" where
  "updateAdEx dt I_ext nr =
     (let spiked = (n_V nr > p_Vpeak (params nr));
          nr1 = spikeCheck nr;
          dV = adex_dV I_ext nr1;
          dw = adex_dw nr1
      in (spiked,
          nr1\<lparr> n_V := n_V nr1 + dV * dt,
                n_w := n_w nr1 + dw * dt,
                spikeTrace := spikeTrace nr1 * exp (- dt / p_tau_plus (params nr1)),
                synapticCurrent := synapticCurrent nr1 * exp (- dt / 5) \<rparr>))"


subsection \<open>receiveInput, processSynapticInputs\<close>

definition receiveInput :: "real \<Rightarrow> real \<Rightarrow> bool \<Rightarrow> BiologicalNeuron \<Rightarrow> BiologicalNeuron" where
  "receiveInput weight delay isExcitatory nr =
     (let arrivalTime = currentTime nr + delay in
      if isExcitatory
      then nr\<lparr> excitatoryInputs :=
                 excitatoryInputs nr @ [\<lparr> in_time = arrivalTime, in_weight = weight \<rparr>] \<rparr>
      else nr\<lparr> inhibitoryInputs :=
                 inhibitoryInputs nr @ [\<lparr> in_time = arrivalTime, in_weight = weight \<rparr>] \<rparr>)"

text \<open>
  \<open>processSynapticInputs(currentTime)\<close>: each \<open>filter\<close> callback visits the queue in
  order, accumulates a due item into \<open>synapticCurrent\<close> and keeps the others.
\<close>

definition processSynapticInputs :: "real \<Rightarrow> BiologicalNeuron \<Rightarrow> BiologicalNeuron" where
  "processSynapticInputs t nr =
     (let syn1 = foldl (\<lambda>acc i. if in_time i \<le> t then acc + in_weight i else acc)
                   (synapticCurrent nr) (excitatoryInputs nr);
          exc = filter (\<lambda>i. \<not> in_time i \<le> t) (excitatoryInputs nr);
          syn2 = foldl (\<lambda>acc i. if in_time i \<le> t then acc - in_weight i else acc)
                   syn1 (inhibitoryInputs nr);
          inh = filter (\<lambda>i. \<not> in_time i \<le> t) (inhibitoryInputs nr)
      in nr\<lparr> currentTime := t, synapticCurrent := syn2,
              excitatoryInputs := exc, inhibitoryInputs := inh \<rparr>)"

subsection \<open>getState, calculateFiringRate, reset\<close>

definition calculateFiringRate :: "BiologicalNeuron \<Rightarrow> jsnum" where
  "calculateFiringRate nr =
     (let timeSinceSpike = js_minus (Num (currentTime nr)) (lastSpikeTime nr) in
      if js_less timeSinceSpike (Num 1000) then js_divide 1000 timeSinceSpike else Num 0)"

record NeuronState =
  st_id :: string
  st_type :: neuron_type
  st_V :: real
  st_w :: real
  st_spikeTrace :: real
  st_lastSpikeTime :: jsnum
  st_synapticCurrent :: real
  st_isRefractory :: bool
  st_firingRate :: jsnum

definition getState :: "BiologicalNeuron \<Rightarrow> NeuronState" where
  "getState nr =
     \<lparr> st_id = nid nr, st_type = ntype nr, st_V = n_V nr, st_w = n_w nr,
       st_spikeTrace = spikeTrace nr, st_lastSpikeTime = lastSpikeTime nr,
       st_synapticCurrent = synapticCurrent nr,
       st_isRefractory = js_less (js_minus (Num (currentTime nr)) (lastSpikeTime nr)) (Num 2),
       st_firingRate = calculateFiringRate nr \<rparr>"

definition neuron_reset :: "BiologicalNeuron \<Rightarrow> BiologicalNeuron" where
  "neuron_reset nr =
     nr\<lparr> n_V := p_EL (params nr), n_w := 0, spikeTrace := 0, synapticCurrent := 0,
         excitatoryInputs := [], inhibitoryInputs := [], currentTime := 0 \<rparr>"

subsection \<open>applySTDP (neuron)\<close>

datatype synapse_type = excitatory | inhibitory

record Synapse =
  preId :: string
  postId :: string
  weight :: real
  delay :: real
  stype :: synapse_type
  plasticity :: real
  preTrace :: real
  postTrace :: real

text \<open>
  \<open>BiologicalNeuron.applySTDP(presynapticSpike, postsynapticSpike, synapse)\<close>: both weight
  changes read the traces before they are updated; the clamp is the last statement.
\<close>

definition neuron_applySTDP :: "BiologicalNeuron \<Rightarrow> bool \<Rightarrow> bool \<Rightarrow> Synapse \<Rightarrow> Synapse" where
  "neuron_applySTDP nr presynapticSpike postsynapticSpike syn =
     (let w1 = (if presynapticSpike \<and> postTrace syn > 0
                then weight syn + p_A_plus (params nr) * postTrace syn else weight syn);
          w2 = (if postsynapticSpike \<and> preTrace syn > 0
                then w1 - p_A_minus (params nr) * preTrace syn else w1);
          pre = (if presynapticSpike then 1
                 else preTrace syn * exp (- 1 / p_tau_plus (params nr)));
          post = (if postsynapticSpike then 1
                  else postTrace syn * exp (- 1 / p_tau_minus (params nr)))
      in syn\<lparr> weight := max 0 (min w2 2), preTrace := pre, postTrace := post \<rparr>)"

section \<open>BiologicalNeuronProcessor\<close>

text \<open>
  The maps of the processor are kept in insertion order, which is the order \<open>forEach\<close>
  visits them in. \<open>allNeurons\<close> is the store of neuron objects, keyed by \<open>nid\<close>; a region
  refers to its neurons by id, since the region's map and \<open>allNeurons\<close> hold the same
  objects. The synapse map is only ever iterated by value, so it is the list of its
  values. The timestep field \<open>dt\<close> is \<open>proc_dt\<close>.
\<close>

record BrainRegion =
  r_name :: string
  r_neurons :: "string list"
  r_function :: string

record Spike =
  neuronId :: string
  timestamp :: real
  strength :: real
  propagationPath :: "string list"

record NeuronActivity =
  a_neuronId :: string
  a_timestamp :: real
  potential :: real
  fired :: bool

record Oscillation =
  phase :: real
  frequency :: real

record BiologicalNeuronProcessor =
  regions :: "(string \<times> BrainRegion) list"
  allNeurons :: "BiologicalNeuron list"
  synapses :: "Synapse list"
  spikes :: "Spike list"
  activities :: "NeuronActivity list"
  globalTime :: real
  proc_dt :: real
  dopamine :: real
  serotonin :: real
  acetylcholine :: real
  norepinephrine :: real
  theta :: Oscillation
  gamma :: Oscillation
  alpha :: Oscillation

text \<open>\<open>allNeurons.get(id)\<close>, and the in-place mutation of the object it returns.\<close>

definition getNeuron :: "string \<Rightarrow> BiologicalNeuron list \<Rightarrow> BiologicalNeuron option" where
  "getNeuron i ns = find (\<lambda>n. nid n = i) ns"

fun updateNeuron ::
  "string \<Rightarrow> (BiologicalNeuron \<Rightarrow> BiologicalNeuron) \<Rightarrow> BiologicalNeuron list \<Rightarrow> BiologicalNeuron list"
where
  "updateNeuron i f [] = []"
| "updateNeuron i f (n # ns) = (if nid n = i then f n # ns else n # updateNeuron i f ns)"

text \<open>\<open>String.prototype.includes\<close>.\<close>

fun str_includes :: "string \<Rightarrow> string \<Rightarrow> bool" where
  "str_includes [] sub = (sub = [])"
| "str_includes (c # cs) sub = (take (length sub) (c # cs) = sub \<or> str_includes cs sub)"

text \<open>The remainder operator \<open>%\<close> on numbers: the quotient is truncated toward zero.\<close>

definition js_rem :: "real \<Rightarrow> real \<Rightarrow> real" where
  "js_rem x y = x - y * real_of_int (if 0 \<le> x / y then \<lfloor>x / y\<rfloor> else \<lceil>x / y\<rceil>)"

definition advancePhase :: "real \<Rightarrow> Oscillation \<Rightarrow> Oscillation" where
  "advancePhase step_dt osc =
     osc\<lparr> phase := js_rem (phase osc + 2 * pi * frequency osc * step_dt / 1000) (2 * pi) \<rparr>"

definition updateOscillations :: "BiologicalNeuronProcessor \<Rightarrow> BiologicalNeuronProcessor" where
  "updateOscillations s =
     s\<lparr> theta := advancePhase (proc_dt s) (theta s),
        gamma := advancePhase (proc_dt s) (gamma s),
        alpha := advancePhase (proc_dt s) (alpha s) \<rparr>"

definition getNeuromodulationFactor :: "BiologicalNeuronProcessor \<Rightarrow> BiologicalNeuron \<Rightarrow> real" where
  "getNeuromodulationFactor s neuron =
     (let f0 = 1;
          f1 = (if str_includes (nid neuron) ''basal_ganglia'' \<or> str_includes (nid neuron) ''prefrontal''
                then f0 * (0.5 + dopamine s) else f0);
          f2 = (if ntype neuron = interneuron then f1 * (0.5 + serotonin s) else f1);
          f3 = (if str_includes (nid neuron) ''cortex''
                then f2 * (0.8 + 0.4 * acetylcholine s) else f2)
      in f3 * (0.7 + 0.6 * norepinephrine s))"

text \<open>
  \<open>handleSpike\<close>: the loop over the synapses carries the processor and the spike's
  propagation path. The unused \<open>neuron.getState()\<close> at its entry has no effect.
\<close>

definition propagate ::
  "BiologicalNeuron \<Rightarrow> BiologicalNeuronProcessor \<times> string list \<Rightarrow> Synapse
     \<Rightarrow> BiologicalNeuronProcessor \<times> string list"
where
  "propagate neuron acc syn =
     (let s = fst acc; path = snd acc in
      if preId syn = nid neuron then
        (case getNeuron (postId syn) (allNeurons s) of
           Some targetNeuron \<Rightarrow>
             (let modulatedWeight = weight syn * getNeuromodulationFactor s targetNeuron;
                  amplitude = \<bar>modulatedWeight\<bar> * (if stype syn = excitatory then 50 else 30)
              in (s\<lparr> allNeurons :=
                       updateNeuron (postId syn)
                         (receiveInput amplitude (delay syn) (stype syn = excitatory))
                         (allNeurons s) \<rparr>,
                  path @ [postId syn]))
         | None \<Rightarrow> (s, path))
      else (s, path))"

definition handleSpike :: "BiologicalNeuron \<Rightarrow> BiologicalNeuronProcessor \<Rightarrow> BiologicalNeuronProcessor" where
  "handleSpike neuron s =
     (let r = foldl (propagate neuron) (s, [nid neuron]) (synapses s);
          spike = \<lparr> neuronId = nid neuron, timestamp = globalTime s, strength = 1,
                    propagationPath = snd r \<rparr>
      in (fst r)\<lparr> spikes := spikes (fst r) @ [spike] \<rparr>)"

text \<open>\<open>applySTDP\<close> of the processor: the body of its \<open>forEach\<close>, then the pass.\<close>

definition recentSpike :: "BiologicalNeuronProcessor \<Rightarrow> BiologicalNeuron \<Rightarrow> bool" where
  "recentSpike s nr =
     js_less (js_minus (Num (globalTime s)) (st_lastSpikeTime (getState nr))) (Num 1)"

definition stdpSynapse :: "BiologicalNeuronProcessor \<Rightarrow> Synapse \<Rightarrow> Synapse" where
  "stdpSynapse s syn =
     (case getNeuron (preId syn) (allNeurons s) of
        None \<Rightarrow> syn
      | Some preNeuron \<Rightarrow>
          (case getNeuron (postId syn) (allNeurons s) of
             None \<Rightarrow> syn
           | Some postNeuron \<Rightarrow>
               (let preSpike = recentSpike s preNeuron;
                    postSpike = recentSpike s postNeuron
                in if preSpike \<or> postSpike then
                     (let plasticityFactor = dopamine s * acetylcholine s;
                          syn1 = neuron_applySTDP preNeuron preSpike postSpike syn
                      in syn1\<lparr> weight := weight syn1 * (1 + plasticityFactor * 0.01) \<rparr>)
                   else syn)))"

definition applySTDP :: "BiologicalNeuronProcessor \<Rightarrow> BiologicalNeuronProcessor" where
  "applySTDP s = s\<lparr> synapses := map (stdpSynapse s) (synapses s) \<rparr>"

definition updateNeuromodulators :: "BiologicalNeuronProcessor \<Rightarrow> BiologicalNeuronProcessor" where
  "updateNeuromodulators s =
     (let totalActivity = length (filter fired (activities s));
          activityRate = js_divide (real totalActivity) (Num (real (length (allNeurons s))));
          sero = (if js_less (Num 0.3) activityRate then min 1 (serotonin s + 0.01)
                  else if js_less activityRate (Num 0.1) then max 0 (serotonin s - 0.01)
                  else serotonin s)
      in s\<lparr> serotonin := sero,
             dopamine := dopamine s * 0.99,
             norepinephrine := norepinephrine s * 0.99,
             acetylcholine := 0.5 + 0.3 * sin (phase (theta s)) \<rparr>)"

definition applyReward :: "real \<Rightarrow> BiologicalNeuronProcessor \<Rightarrow> BiologicalNeuronProcessor" where
  "applyReward reward s =
     s\<lparr> dopamine := max 0 (min 1 (dopamine s + reward)),
        synapses :=
          map (\<lambda>syn. if preTrace syn > 0.5 \<and> postTrace syn > 0.5
                      then syn\<lparr> weight := max (- 2) (min 2 (weight syn * (1 + reward * 0.1))) \<rparr>
                      else syn)
            (synapses s) \<rparr>"

definition setArousal :: "real \<Rightarrow> BiologicalNeuronProcessor \<Rightarrow> BiologicalNeuronProcessor" where
  "setArousal level s = s\<lparr> norepinephrine := max 0 (min 1 level) \<rparr>"

definition setAttention :: "real \<Rightarrow> BiologicalNeuronProcessor \<Rightarrow> BiologicalNeuronProcessor" where
  "setAttention level s = s\<lparr> acetylcholine := max 0 (min 1 level) \<rparr>"

definition reset :: "BiologicalNeuronProcessor \<Rightarrow> BiologicalNeuronProcessor" where
  "reset s =
     s\<lparr> allNeurons := map neuron_reset (allNeurons s),
        spikes := [], activities := [], globalTime := 0,
        dopamine := 0.5, serotonin := 0.5, acetylcholine := 0.5, norepinephrine := 0.5 \<rparr>"

subsection \<open>processInput\<close>

text \<open>
  The input loop of \<open>processInput\<close>: \<open>input.forEach((value, i) => ...)\<close> over the neurons
  of the region \<open>sensory_cortex\<close>, when the region exists.
\<close>

definition injectOne ::
  "string list \<Rightarrow> BiologicalNeuronProcessor \<Rightarrow> nat \<times> real \<Rightarrow> BiologicalNeuronProcessor"
where
  "injectOne sensoryNeurons s iv =
     (let i = fst iv; v = snd iv in
      if i < length sensoryNeurons then
        (let current = v * 50 * (1 + acetylcholine s)
         in s\<lparr> allNeurons :=
                 updateNeuron (sensoryNeurons ! i) (receiveInput current 0 True) (allNeurons s) \<rparr>)
      else s)"

definition injectInput :: "real list \<Rightarrow> BiologicalNeuronProcessor \<Rightarrow> BiologicalNeuronProcessor" where
  "injectInput input s =
     (case map_of (regions s) ''sensory_cortex'' of
        None \<Rightarrow> s
      | Some sens \<Rightarrow> foldl (injectOne (r_neurons sens)) s (zip [0..<length input] input))"

text \<open>The body of \<open>allNeurons.forEach\<close> inside the step loop, for the neuron at position \<open>i\<close>.\<close>

definition processNeuron ::
  "nat \<Rightarrow> real \<Rightarrow> real \<Rightarrow> real \<Rightarrow> BiologicalNeuronProcessor \<Rightarrow> nat \<Rightarrow> BiologicalNeuronProcessor"
where
  "processNeuron step thetaMod gammaMod alphaMod s i =
     (let neuron1 = processSynapticInputs (globalTime s) (allNeurons s ! i);
          c0 = 0;
          c1 = (if str_includes (nid neuron1) ''hippocampus'' then c0 + thetaMod * 5 else c0);
          c2 = (if str_includes (nid neuron1) ''cortex'' then c1 + gammaMod * 3 else c1);
          c3 = (if str_includes (nid neuron1) ''thalamus'' then c2 + alphaMod * 4 else c2);
          externalCurrent = c3 * getNeuromodulationFactor s neuron1;
          r = updateAdEx (proc_dt s) externalCurrent neuron1;
          spiked = fst r;
          s1 = s\<lparr> allNeurons := (allNeurons s)[i := snd r] \<rparr>;
          s2 = (if spiked then handleSpike (snd r) s1 else s1)
      in if step mod 10 = 0 then
           s2\<lparr> activities := activities s2 @
                  [\<lparr> a_neuronId = nid (snd r), a_timestamp = globalTime s2,
                     potential = st_V (getState (allNeurons s2 ! i)), fired = spiked \<rparr>] \<rparr>
         else s2)"

definition simStep :: "BiologicalNeuronProcessor \<Rightarrow> nat \<Rightarrow> BiologicalNeuronProcessor" where
  "simStep s step =
     (let s1 = updateOscillations (s\<lparr> globalTime := globalTime s + proc_dt s \<rparr>);
          thetaMod = sin (phase (theta s1));
          gammaMod = sin (phase (gamma s1));
          alphaMod = sin (phase (alpha s1));
          s2 = foldl (processNeuron step thetaMod gammaMod alphaMod) s1
                 [0..<length (allNeurons s1)]
      in updateNeuromodulators (applySTDP s2))"

text \<open>\<open>processInput(input)\<close>: the processor after the call; the call returns its \<open>activities\<close>.\<close>

definition processInput :: "real list \<Rightarrow> BiologicalNeuronProcessor \<Rightarrow> BiologicalNeuronProcessor" where
  "processInput input s =
     foldl simStep (injectInput input (s\<lparr> activities := [], spikes := [] \<rparr>)) [0..<1000]"

subsection \<open>Field initialisers and the public calls\<close>

text \<open>
  The processor as its field initialisers leave it, before the constructor adds regions,
  neurons and synapses.
\<close>

definition emptyProcessor :: BiologicalNeuronProcessor where
  "emptyProcessor =
     \<lparr> regions = [], allNeurons = [], synapses = [], spikes = [], activities = [],
       globalTime = 0, proc_dt = 0.1,
       dopamine = 0.5, serotonin = 0.5, acetylcholine = 0.5, norepinephrine = 0.5,
       theta = \<lparr> phase = 0, frequency = 7 \<rparr>,
       gamma = \<lparr> phase = 0, frequency = 40 \<rparr>,
       alpha = \<lparr> phase = 0, frequency = 10 \<rparr> \<rparr>"

text \<open>The public methods that change the processor, as calls, and a sequence of them.\<close>

datatype api_call =
    ProcessInput "real list"
  | ApplyReward real
  | SetArousal real
  | SetAttention real
  | Reset

fun api_step :: "BiologicalNeuronProcessor \<Rightarrow> api_call \<Rightarrow> BiologicalNeuronProcessor" where
  "api_step s (ProcessInput input) = processInput input s"
| "api_step s (ApplyReward reward) = applyReward reward s"
| "api_step s (SetArousal level) = setArousal level s"
| "api_step s (SetAttention level) = setAttention level s"
| "api_step s Reset = reset s"

text \<open>All four neuromodulator levels lie in \<open>[0, 1]\<close>.\<close>

definition modulatorsInRange :: "BiologicalNeuronProcessor \<Rightarrow> bool" where
  "modulatorsInRange s =
     (0 \<le> dopamine s \<and> dopamine s \<le> 1 \<and> 0 \<le> serotonin s \<and> serotonin s \<le> 1
      \<and> 0 \<le> acetylcholine s \<and> acetylcholine s \<le> 1
      \<and> 0 \<le> norepinephrine s \<and> norepinephrine s \<le> 1)"

section \<open>Histories kept by the callers of the processor\<close>


subsection \<open>SimulatedBrain.recordSpikeActivity\<close>







subsection \<open>EnhancedNeuromorphicThinker.updateState\<close>




subsection \<open>Visualizer.generateVisualization\<close>




section \<open>Concrete inputs\<close>


definition peakedNeuron :: BiologicalNeuron where
  "peakedNeuron = (newNeuron ''hippocampus_1'' pyramidal RegularSpiking)\<lparr> n_V := 21 \<rparr>"

text \<open>A neuron with two queued excitatory inputs and one queued inhibitory input.\<close>

definition queuedNeuron :: BiologicalNeuron where
  "queuedNeuron =
     (newNeuron ''hippocampus_1'' pyramidal RegularSpiking)
       \<lparr> excitatoryInputs := [\<lparr> in_time = 1, in_weight = 5 \<rparr>, \<lparr> in_time = 3, in_weight = 7 \<rparr>],
         inhibitoryInputs := [\<lparr> in_time = 2, in_weight = 1 \<rparr>] \<rparr>"

text \<open>
  Two neurons of one region as \<open>createRegion\<close> builds them (position 0 is an interneuron
  with the fast-spiking preset), joined by one excitatory synapse.
\<close>

definition pairSynapse :: Synapse where
  "pairSynapse =
     \<lparr> preId = ''hippocampus_1'', postId = ''hippocampus_0'', weight = 0.3, delay = 1,
       stype = excitatory, plasticity = 0.02, preTrace = 0, postTrace = 0 \<rparr>"

definition pairNetwork :: BiologicalNeuronProcessor where
  "pairNetwork =
     emptyProcessor
       \<lparr> regions := [(''hippocampus'',
            \<lparr> r_name = ''hippocampus'', r_neurons = [''hippocampus_0'', ''hippocampus_1''],
              r_function = ''Memory encoding and retrieval'' \<rparr>)],
         allNeurons := [newNeuron ''hippocampus_0'' interneuron FastSpiking,
                        newNeuron ''hippocampus_1'' pyramidal RegularSpiking],
         synapses := [pairSynapse] \<rparr>"

text \<open>
  The pair at time 10.5, the presynaptic neuron having spiked at time 10 and the
  postsynaptic one at time 2, with a synapse just below the upper weight bound.
\<close>

definition stdpState :: BiologicalNeuronProcessor where
  "stdpState =
     pairNetwork
       \<lparr> allNeurons := [(newNeuron ''hippocampus_0'' interneuron FastSpiking)
                          \<lparr> lastSpikeTime := Num 2 \<rparr>,
                        (newNeuron ''hippocampus_1'' pyramidal RegularSpiking)
                          \<lparr> lastSpikeTime := Num 10 \<rparr>],
         synapses := [pairSynapse\<lparr> weight := 1.998, preTrace := 1, postTrace := 0.5 \<rparr>],
         globalTime := 10.5 \<rparr>"

text \<open>The pair at time 10.5, neither neuron having ever spiked, both traces at one half.\<close>

definition quietState :: BiologicalNeuronProcessor where
  "quietState =
     pairNetwork
       \<lparr> synapses := [pairSynapse\<lparr> preTrace := 0.5, postTrace := 0.5 \<rparr>],
         globalTime := 10.5 \<rparr>"

text \<open>
  The pair after some activity: time 50, the oscillators advanced, one neuron having
  spiked at time 42 with an input still queued, a learned weight, and one record in each
  history.
\<close>

definition usedState :: BiologicalNeuronProcessor where
  "usedState =
     pairNetwork
       \<lparr> allNeurons := [newNeuron ''hippocampus_0'' interneuron FastSpiking,
                        (newNeuron ''hippocampus_1'' pyramidal RegularSpiking)
                          \<lparr> n_V := - 60, n_w := 3, lastSpikeTime := Num 42, spikeTrace := 0.2,
                            currentTime := 50, synapticCurrent := 4,
                            excitatoryInputs := [\<lparr> in_time = 51, in_weight = 7 \<rparr>] \<rparr>],
         synapses := [pairSynapse\<lparr> weight := 0.7, preTrace := 0.4, postTrace := 0.1 \<rparr>],
         spikes := [\<lparr> neuronId = ''hippocampus_1'', timestamp = 42, strength = 1,
                      propagationPath = [''hippocampus_1'', ''hippocampus_0''] \<rparr>],
         activities := [\<lparr> a_neuronId = ''hippocampus_1'', a_timestamp = 42, potential = - 58,
                          fired = True \<rparr>],
         globalTime := 50,
         dopamine := 0.3, serotonin := 0.4, acetylcholine := 0.7, norepinephrine := 0.2,
         theta := \<lparr> phase = 1, frequency = 7 \<rparr>,
         gamma := \<lparr> phase = 2, frequency = 40 \<rparr>,
         alpha := \<lparr> phase = 3, frequency = 10 \<rparr> \<rparr>"

text \<open>A sensory region of two neurons, and a third neuron outside it.\<close>

definition sensoryNetwork :: BiologicalNeuronProcessor where
  "sensoryNetwork =
     emptyProcessor
       \<lparr> regions := [(''sensory_cortex'',
            \<lparr> r_name = ''sensory_cortex'',
              r_neurons = [''sensory_cortex_0'', ''sensory_cortex_1''],
              r_function = ''Input processing and feature detection'' \<rparr>)],
         allNeurons := [newNeuron ''sensory_cortex_0'' interneuron FastSpiking,
                        newNeuron ''sensory_cortex_1'' sensory Adapting,
                        newNeuron ''thalamus_1'' pyramidal RegularSpiking] \<rparr>"












section \<open>Properties\<close>

subsection \<open>Auxiliary facts\<close>

lemma foldl_add_filter:
  "foldl (\<lambda>acc i. if P i then acc + f i else acc) (a::real) xs
     = a + sum_list (map f (filter P xs))"
  by (induction xs arbitrary: a) auto

lemma foldl_sub_filter:
  "foldl (\<lambda>acc i. if P i then acc - f i else acc) (a::real) xs
     = a - sum_list (map f (filter P xs))"
  by (induction xs arbitrary: a) auto

lemma exp_neg4_bound: "4 * exp (- 4 :: real) \<noteq> 25"
proof -
  have "exp (- 4 :: real) < 1" by simp
  then show ?thesis by linarith
qed



subsection \<open>The reset law of the exponential mode\<close>

text \<open>
  C2, as the spec states it: after a call of \<open>updateAdEx\<close> that returns \<open>spiked = true\<close>,
  \<open>V\<close> equals the reset potential and \<open>w\<close> has grown by exactly \<open>b\<close>. The call does
  not return after the reset: its Euler step runs from the reset state. For the pyramidal
  regular-spiking neuron with \<open>V = 21\<close>, \<open>dt = 0.1\<close> and no input the call reports a
  spike and leaves \<open>V \<noteq> Vr\<close> and \<open>w \<noteq> w + b\<close>.
\<close>

theorem updateAdEx_reset_law_counterexample:
  "fst (updateAdEx (1/10) 0 peakedNeuron)
   \<and> n_V (snd (updateAdEx (1/10) 0 peakedNeuron)) \<noteq> p_Vr (params peakedNeuron)
   \<and> n_w (snd (updateAdEx (1/10) 0 peakedNeuron)) \<noteq> n_w peakedNeuron + p_b (params peakedNeuron)"
  by (simp add: updateAdEx_def spikeCheck_def adex_dV_def adex_dw_def peakedNeuron_def
        newNeuron_def RegularSpiking_def Let_def exp_neg4_bound)

text \<open>
  C2, amended: a call of \<open>updateAdEx\<close> that returns \<open>spiked = true\<close> sets \<open>V\<close> to the reset
  potential and adds \<open>b\<close> to \<open>w\<close>, and then applies the Euler step of the same call to
  these values. On return \<open>V = Vr + dV \<sqdot> dt\<close> and \<open>w = w\<^sub>0 + b + dw \<sqdot> dt\<close>, with both
  derivatives taken at \<open>V = Vr\<close> and \<open>w = w\<^sub>0 + b\<close>, and the last spike time is the
  neuron's clock.
\<close>

theorem updateAdEx_spike_reset:
  assumes "fst (updateAdEx dt I_ext nr)"
  shows "n_V (snd (updateAdEx dt I_ext nr)) =
           p_Vr (params nr)
           + (- p_gL (params nr) * (p_Vr (params nr) - p_EL (params nr))
              + p_gL (params nr) * p_deltaT (params nr)
                  * exp ((p_Vr (params nr) - p_VT (params nr)) / p_deltaT (params nr))
              - (n_w nr + p_b (params nr)) + I_ext + synapticCurrent nr) / p_C (params nr) * dt
       \<and> n_w (snd (updateAdEx dt I_ext nr)) =
           n_w nr + p_b (params nr)
           + (p_a (params nr) * (p_Vr (params nr) - p_EL (params nr))
              - (n_w nr + p_b (params nr))) / p_tau_w (params nr) * dt
       \<and> lastSpikeTime (snd (updateAdEx dt I_ext nr)) = Num (currentTime nr)"
  using assms by (simp add: updateAdEx_def spikeCheck_def adex_dV_def adex_dw_def Let_def)

theorem updateAdEx_spike_reset_witness:
  "fst (updateAdEx (1/10) 0 peakedNeuron)
   \<and> n_V (snd (updateAdEx (1/10) 0 peakedNeuron)) = - 58 + (- 125 + 20 * exp (- 4)) / 2000
   \<and> n_w (snd (updateAdEx (1/10) 0 peakedNeuron)) = 5 - 119 / 7500
   \<and> lastSpikeTime (snd (updateAdEx (1/10) 0 peakedNeuron)) = Num 0"
proof -
  have sp: "fst (updateAdEx (1/10) 0 peakedNeuron)"
    by (simp add: updateAdEx_def peakedNeuron_def newNeuron_def RegularSpiking_def Let_def)
  show ?thesis
    using sp updateAdEx_spike_reset [OF sp]
    by (simp add: peakedNeuron_def newNeuron_def RegularSpiking_def)
qed

subsection \<open>Rest at the leak potential\<close>




subsection \<open>Delivery of queued inputs\<close>

text \<open>
  C7: \<open>processSynapticInputs(t)\<close> removes from both queues every input whose arrival time
  is at most \<open>t\<close> and keeps, in order, every input that arrives later; the amplitudes of
  the removed excitatory inputs are added to the synaptic current and those of the
  removed inhibitory inputs are subtracted from it.
\<close>

theorem processSynapticInputs_delivers:
  "excitatoryInputs (processSynapticInputs t nr)
     = filter (\<lambda>i. t < in_time i) (excitatoryInputs nr)
   \<and> inhibitoryInputs (processSynapticInputs t nr)
     = filter (\<lambda>i. t < in_time i) (inhibitoryInputs nr)
   \<and> synapticCurrent (processSynapticInputs t nr) =
       synapticCurrent nr
       + sum_list (map in_weight (filter (\<lambda>i. in_time i \<le> t) (excitatoryInputs nr)))
       - sum_list (map in_weight (filter (\<lambda>i. in_time i \<le> t) (inhibitoryInputs nr)))"
  by (simp add: processSynapticInputs_def foldl_add_filter foldl_sub_filter not_le)

theorem processSynapticInputs_delivers_witness:
  "excitatoryInputs (processSynapticInputs 2 queuedNeuron) = [\<lparr> in_time = 3, in_weight = 7 \<rparr>]
   \<and> inhibitoryInputs (processSynapticInputs 2 queuedNeuron) = []
   \<and> synapticCurrent (processSynapticInputs 2 queuedNeuron) = 4"
  using processSynapticInputs_delivers [of 2 queuedNeuron]
  by (simp add: queuedNeuron_def newNeuron_def)

subsection \<open>Firing rate at the spike time\<close>

text \<open>
  C9: when the neuron's clock equals its last spike time, \<open>calculateFiringRate\<close> divides
  1000 by a zero interval, and the firing rate that \<open>getState\<close> reports is \<open>Infinity\<close>.
  This is the state of every neuron right after a call of \<open>updateAdEx\<close> that detected a
  spike, which is when \<open>handleSpike\<close> queries it.
\<close>

theorem calculateFiringRate_zero_interval:
  assumes "lastSpikeTime nr = Num (currentTime nr)"
  shows "st_firingRate (getState nr) = PosInf"
  using assms by (simp add: getState_def calculateFiringRate_def)

theorem calculateFiringRate_zero_interval_witness:
  "lastSpikeTime (snd (updateAdEx (1/10) 0 (processSynapticInputs 3 peakedNeuron))) = Num 3
   \<and> currentTime (snd (updateAdEx (1/10) 0 (processSynapticInputs 3 peakedNeuron))) = 3
   \<and> st_firingRate (getState (snd (updateAdEx (1/10) 0 (processSynapticInputs 3 peakedNeuron))))
       = PosInf"
proof -
  have h: "lastSpikeTime (snd (updateAdEx (1/10) 0 (processSynapticInputs 3 peakedNeuron)))
      = Num (currentTime (snd (updateAdEx (1/10) 0 (processSynapticInputs 3 peakedNeuron))))"
    by (simp add: updateAdEx_def spikeCheck_def processSynapticInputs_def peakedNeuron_def
          newNeuron_def RegularSpiking_def Let_def)
  show ?thesis
    using calculateFiringRate_zero_interval [OF h]
    by (simp add: updateAdEx_def spikeCheck_def processSynapticInputs_def peakedNeuron_def
          newNeuron_def RegularSpiking_def Let_def)
qed

subsection \<open>What the step loop leaves alone\<close>

lemma length_updateNeuron [simp]: "length (updateNeuron i f ns) = length ns"
  by (induction ns) auto

lemma propagate_frame:
  "\<exists>ns. fst (propagate n acc syn) = (fst acc)\<lparr> allNeurons := ns \<rparr>
        \<and> length ns = length (allNeurons (fst acc))"
proof -
  have "fst (propagate n acc syn)
          = (fst acc)\<lparr> allNeurons := allNeurons (fst (propagate n acc syn)) \<rparr>
        \<and> length (allNeurons (fst (propagate n acc syn))) = length (allNeurons (fst acc))"
    by (simp add: propagate_def Let_def split: option.splits)
  then show ?thesis by blast
qed

lemma foldl_propagate_frame:
  "\<exists>ns. fst (foldl (propagate n) acc syns) = (fst acc)\<lparr> allNeurons := ns \<rparr>
        \<and> length ns = length (allNeurons (fst acc))"
proof (induction syns arbitrary: acc)
  case Nil
  have "fst acc = (fst acc)\<lparr> allNeurons := allNeurons (fst acc) \<rparr>" by simp
  then show ?case by (metis foldl_Nil)
next
  case (Cons syn syns)
  obtain ns1 where a: "fst (propagate n acc syn) = (fst acc)\<lparr> allNeurons := ns1 \<rparr>"
      and l1: "length ns1 = length (allNeurons (fst acc))"
    using propagate_frame by blast
  obtain ns2 where b: "fst (foldl (propagate n) (propagate n acc syn) syns)
        = (fst (propagate n acc syn))\<lparr> allNeurons := ns2 \<rparr>"
      and l2: "length ns2 = length (allNeurons (fst (propagate n acc syn)))"
    using Cons.IH by blast
  have "fst (foldl (propagate n) acc (syn # syns)) = (fst acc)\<lparr> allNeurons := ns2 \<rparr>"
    using a b by simp
  moreover have "length ns2 = length (allNeurons (fst acc))"
    using a l1 l2 by simp
  ultimately show ?case by blast
qed

lemma handleSpike_frame:
  "\<exists>ns sp. handleSpike n s = s\<lparr> allNeurons := ns, spikes := spikes s @ [sp] \<rparr>
        \<and> length ns = length (allNeurons s)"
proof -
  obtain ns where a: "fst (foldl (propagate n) (s, [nid n]) (synapses s)) = s\<lparr> allNeurons := ns \<rparr>"
      and l: "length ns = length (allNeurons s)"
    using foldl_propagate_frame [of n "(s, [nid n])" "synapses s"] by auto
  have "handleSpike n s = s\<lparr> allNeurons := ns, spikes := spikes s @
      [\<lparr> neuronId = nid n, timestamp = globalTime s, strength = 1,
         propagationPath = snd (foldl (propagate n) (s, [nid n]) (synapses s)) \<rparr>] \<rparr>"
    by (simp add: handleSpike_def Let_def a)
  with l show ?thesis by blast
qed

lemma processNeuron_frame:
  "\<exists>ns sps acts. processNeuron step a b c s i
        = s\<lparr> allNeurons := ns, spikes := spikes s @ sps, activities := activities s @ acts \<rparr>
      \<and> length ns = length (allNeurons s) \<and> length sps \<le> 1
      \<and> length acts = (if step mod 10 = 0 then 1 else 0)"
proof -
  define neuron1 where "neuron1 = processSynapticInputs (globalTime s) (allNeurons s ! i)"
  define ext where "ext = (let c0 = 0;
          c1 = (if str_includes (nid neuron1) ''hippocampus'' then c0 + a * 5 else c0);
          c2 = (if str_includes (nid neuron1) ''cortex'' then c1 + b * 3 else c1);
          c3 = (if str_includes (nid neuron1) ''thalamus'' then c2 + c * 4 else c2)
       in c3 * getNeuromodulationFactor s neuron1)"
  define r where "r = updateAdEx (proc_dt s) ext neuron1"
  define s1 where "s1 = s\<lparr> allNeurons := (allNeurons s)[i := snd r] \<rparr>"
  define s2 where "s2 = (if fst r then handleSpike (snd r) s1 else s1)"
  have pn: "processNeuron step a b c s i =
      (if step mod 10 = 0 then
           s2\<lparr> activities := activities s2 @
                  [\<lparr> a_neuronId = nid (snd r), a_timestamp = globalTime s2,
                     potential = st_V (getState (allNeurons s2 ! i)), fired = fst r \<rparr>] \<rparr>
         else s2)"
    by (simp add: processNeuron_def Let_def neuron1_def ext_def r_def s1_def s2_def)
  have "\<exists>ns sps. s2 = s\<lparr> allNeurons := ns, spikes := spikes s @ sps \<rparr>
      \<and> length ns = length (allNeurons s) \<and> length sps \<le> 1"
  proof (cases "fst r")
    case True
    obtain ns sp where h: "handleSpike (snd r) s1 = s1\<lparr> allNeurons := ns, spikes := spikes s1 @ [sp] \<rparr>"
        and l: "length ns = length (allNeurons s1)"
      using handleSpike_frame by blast
    have "s2 = s\<lparr> allNeurons := ns, spikes := spikes s @ [sp] \<rparr>"
      using True h by (simp add: s2_def s1_def)
    moreover have "length ns = length (allNeurons s)" using l by (simp add: s1_def)
    ultimately show ?thesis by (metis length_Cons list.size(3) le_refl One_nat_def)
  next
    case False
    then have "s2 = s\<lparr> allNeurons := (allNeurons s)[i := snd r], spikes := spikes s @ [] \<rparr>"
      by (simp add: s2_def s1_def)
    then show ?thesis by (metis length_list_update list.size(3) zero_le)
  qed
  then obtain ns sps where s2: "s2 = s\<lparr> allNeurons := ns, spikes := spikes s @ sps \<rparr>"
      and l: "length ns = length (allNeurons s)" "length sps \<le> 1"
    by blast
  show ?thesis
  proof (cases "step mod 10 = 0")
    case True
    have "processNeuron step a b c s i = s\<lparr> allNeurons := ns, spikes := spikes s @ sps,
        activities := activities s @ [\<lparr> a_neuronId = nid (snd r), a_timestamp = globalTime s2,
                     potential = st_V (getState (allNeurons s2 ! i)), fired = fst r \<rparr>] \<rparr>"
      using True pn by (simp add: s2)
    with l True show ?thesis by (metis (full_types) length_Cons list.size(3) One_nat_def)
  next
    case False
    have "processNeuron step a b c s i = s\<lparr> allNeurons := ns, spikes := spikes s @ sps,
        activities := activities s @ [] \<rparr>"
      using False pn by (simp add: s2)
    with l False show ?thesis by (metis (full_types) list.size(3))
  qed
qed

lemma foldl_processNeuron_frame:
  "\<exists>ns sps acts. foldl (processNeuron step a b c) s idxs
        = s\<lparr> allNeurons := ns, spikes := spikes s @ sps, activities := activities s @ acts \<rparr>
      \<and> length ns = length (allNeurons s) \<and> length sps \<le> length idxs
      \<and> length acts = (if step mod 10 = 0 then length idxs else 0)"
proof (induction idxs arbitrary: s)
  case Nil
  have "foldl (processNeuron step a b c) s []
      = s\<lparr> allNeurons := allNeurons s, spikes := spikes s @ [], activities := activities s @ [] \<rparr>"
    by simp
  then show ?case by (metis (full_types) list.size(3) le_refl)
next
  case (Cons i idxs)
  obtain ns1 sps1 acts1 where
    p: "processNeuron step a b c s i
        = s\<lparr> allNeurons := ns1, spikes := spikes s @ sps1, activities := activities s @ acts1 \<rparr>"
    and l1: "length ns1 = length (allNeurons s)" "length sps1 \<le> 1"
      "length acts1 = (if step mod 10 = 0 then 1 else 0)"
    using processNeuron_frame by blast
  define s1 where "s1 = processNeuron step a b c s i"
  obtain ns2 sps2 acts2 where
    q: "foldl (processNeuron step a b c) s1 idxs
        = s1\<lparr> allNeurons := ns2, spikes := spikes s1 @ sps2, activities := activities s1 @ acts2 \<rparr>"
    and l2: "length ns2 = length (allNeurons s1)" "length sps2 \<le> length idxs"
      "length acts2 = (if step mod 10 = 0 then length idxs else 0)"
    using Cons.IH by blast
  have "foldl (processNeuron step a b c) s (i # idxs)
      = s\<lparr> allNeurons := ns2, spikes := spikes s @ (sps1 @ sps2),
            activities := activities s @ (acts1 @ acts2) \<rparr>"
    using q p by (simp add: s1_def)
  moreover have "length ns2 = length (allNeurons s)"
    using l2 l1 p by (simp add: s1_def)
  moreover have "length (sps1 @ sps2) \<le> length (i # idxs)"
    using l1 l2 by simp
  moreover have "length (acts1 @ acts2) = (if step mod 10 = 0 then length (i # idxs) else 0)"
    using l1 l2 by simp
  ultimately show ?case by blast
qed





lemma injectOne_frame:
  "injectOne ids s iv = s\<lparr> allNeurons := allNeurons (injectOne ids s iv) \<rparr>
   \<and> length (allNeurons (injectOne ids s iv)) = length (allNeurons s)"
  by (simp add: injectOne_def Let_def)

lemma foldl_injectOne_frame:
  "foldl (injectOne ids) s ivs = s\<lparr> allNeurons := allNeurons (foldl (injectOne ids) s ivs) \<rparr>
   \<and> length (allNeurons (foldl (injectOne ids) s ivs)) = length (allNeurons s)"
proof (induction ivs arbitrary: s)
  case Nil
  show ?case by simp
next
  case (Cons iv ivs)
  define s1 where "s1 = injectOne ids s iv"
  define s2 where "s2 = foldl (injectOne ids) s1 ivs"
  have a: "s1 = s\<lparr> allNeurons := allNeurons s1 \<rparr>" "length (allNeurons s1) = length (allNeurons s)"
    using injectOne_frame [of ids s iv] by (simp_all add: s1_def)
  have b: "s2 = s1\<lparr> allNeurons := allNeurons s2 \<rparr>" "length (allNeurons s2) = length (allNeurons s1)"
    using Cons.IH [of s1] by (simp_all add: s2_def)
  have "s2 = (s\<lparr> allNeurons := allNeurons s1 \<rparr>)\<lparr> allNeurons := allNeurons s2 \<rparr>"
    using a(1) b(1) by simp
  then have c: "s2 = s\<lparr> allNeurons := allNeurons s2 \<rparr>" by simp
  have d: "foldl (injectOne ids) s (iv # ivs) = s2" by (simp add: s2_def s1_def)
  show ?case unfolding d using c a(2) b(2) by simp
qed

lemma injectInput_frame:
  "injectInput input s = s\<lparr> allNeurons := allNeurons (injectInput input s) \<rparr>
   \<and> length (allNeurons (injectInput input s)) = length (allNeurons s)"
proof (cases "map_of (regions s) ''sensory_cortex''")
  case None
  then show ?thesis by (simp add: injectInput_def)
next
  case (Some sens)
  then show ?thesis
    using foldl_injectOne_frame [of "r_neurons sens" s "zip [0..<length input] input"]
    by (simp add: injectInput_def)
qed


lemma updateNeuromodulators_range:
  assumes "modulatorsInRange s"
  shows "modulatorsInRange (updateNeuromodulators s)"
proof -
  have s1: "- 1 \<le> sin (phase (theta s))" and s2: "sin (phase (theta s)) \<le> 1" by simp_all
  have "0 \<le> 0.5 + 0.3 * sin (phase (theta s))" "0.5 + 0.3 * sin (phase (theta s)) \<le> 1"
    using s1 s2 by linarith+
  then show ?thesis
    using assms by (simp add: modulatorsInRange_def updateNeuromodulators_def Let_def)
qed

lemma simStep_range:
  assumes "modulatorsInRange s"
  shows "modulatorsInRange (simStep s k)"
proof -
  define s1 where "s1 = updateOscillations (s\<lparr> globalTime := globalTime s + proc_dt s \<rparr>)"
  define s2 where "s2 = foldl (processNeuron k (sin (phase (theta s1))) (sin (phase (gamma s1)))
      (sin (phase (alpha s1)))) s1 [0..<length (allNeurons s1)]"
  have st: "simStep s k = updateNeuromodulators (applySTDP s2)"
    by (simp add: simStep_def Let_def s1_def s2_def)
  obtain ns sps acts where
    e: "s2 = s1\<lparr> allNeurons := ns, spikes := spikes s1 @ sps, activities := activities s1 @ acts \<rparr>"
    unfolding s2_def using foldl_processNeuron_frame by blast
  have "modulatorsInRange (applySTDP s2)"
    using assms unfolding e
    by (simp add: modulatorsInRange_def applySTDP_def s1_def updateOscillations_def)
  then show ?thesis unfolding st by (rule updateNeuromodulators_range)
qed

lemma foldl_simStep_range:
  assumes "modulatorsInRange s"
  shows "modulatorsInRange (foldl simStep s ks)"
  using assms by (induction ks arbitrary: s) (simp_all add: simStep_range)

lemma processInput_range:
  assumes "modulatorsInRange s"
  shows "modulatorsInRange (processInput input s)"
proof -
  define s0 where "s0 = injectInput input (s\<lparr> activities := [], spikes := [] \<rparr>)"
  have e: "s0 = (s\<lparr> activities := [], spikes := [] \<rparr>)\<lparr> allNeurons := allNeurons s0 \<rparr>"
    using injectInput_frame [of input "s\<lparr> activities := [], spikes := [] \<rparr>"]
    by (simp_all add: s0_def)
  have "modulatorsInRange s0"
    using assms by (subst e) (simp add: modulatorsInRange_def)
  then show ?thesis
    unfolding processInput_def s0_def [symmetric] by (rule foldl_simStep_range)
qed

lemma api_step_range:
  assumes "modulatorsInRange s"
  shows "modulatorsInRange (api_step s c)"
proof (cases c)
  case (ProcessInput input)
  then show ?thesis using assms by (simp add: processInput_range)
next
  case (ApplyReward r)
  then show ?thesis using assms by (simp add: modulatorsInRange_def applyReward_def)
next
  case (SetArousal l)
  then show ?thesis using assms by (simp add: modulatorsInRange_def setArousal_def)
next
  case (SetAttention l)
  then show ?thesis using assms by (simp add: modulatorsInRange_def setAttention_def)
next
  case Reset
  then show ?thesis by (simp add: modulatorsInRange_def reset_def)
qed

lemma neuron_applySTDP_clamps:
  "0 \<le> weight (neuron_applySTDP nr pre post syn) \<and> weight (neuron_applySTDP nr pre post syn) \<le> 2"
  by (simp add: neuron_applySTDP_def Let_def)

subsection \<open>The input loop\<close>

lemma updateNeuron_map:
  assumes "distinct (map nid ns)"
  shows "updateNeuron i f ns = map (\<lambda>n. if nid n = i then f n else n) ns"
  using assms
proof (induction ns)
  case Nil
  show ?case by simp
next
  case (Cons n ns)
  show ?case
  proof (cases "nid n = i")
    case True
    then have "i \<notin> nid ` set ns" using Cons.prems by auto
    then have "map (\<lambda>n. if nid n = i then f n else n) ns = ns"
      by (induction ns) auto
    with True show ?thesis by simp
  next
    case False
    then show ?thesis using Cons by simp
  qed
qed

lemma nid_receiveInput [simp]: "nid (receiveInput c d e nr) = nid nr"
  by (simp add: receiveInput_def Let_def)

lemma zip_upt_snoc:
  "zip [0..<length (xs @ [x])] (xs @ [x]) = zip [0..<length xs] xs @ [(length xs, x)]"
  by simp

lemma allNeurons_foldl_injectOne:
  "allNeurons (foldl (injectOne ids) s ivs)
     = foldl (\<lambda>ns iv. if fst iv < length ids
                       then updateNeuron (ids ! fst iv)
                              (receiveInput (snd iv * 50 * (1 + acetylcholine s)) 0 True) ns
                       else ns) (allNeurons s) ivs"
proof (induction ivs arbitrary: s)
  case Nil
  show ?case by simp
next
  case (Cons iv ivs)
  have a: "acetylcholine (injectOne ids s iv) = acetylcholine s"
    by (simp add: injectOne_def Let_def)
  have b: "allNeurons (injectOne ids s iv)
      = (if fst iv < length ids
         then updateNeuron (ids ! fst iv)
                (receiveInput (snd iv * 50 * (1 + acetylcholine s)) 0 True) (allNeurons s)
         else allNeurons s)"
    by (simp add: injectOne_def Let_def)
  show ?case using Cons.IH [of "injectOne ids s iv"] unfolding a b by simp
qed

lemma inject_list_effect:
  fixes ids :: "string list" and ns :: "BiologicalNeuron list" and ach :: real
  defines "stp \<equiv> (\<lambda>ms iv. if fst iv < length ids
                       then updateNeuron (ids ! fst iv)
                              (receiveInput (snd iv * 50 * (1 + ach)) 0 True) ms
                       else ms)"
  assumes di: "distinct ids" and dn: "distinct (map nid ns)"
  shows "map nid (foldl stp ns (zip [0..<length input] input)) = map nid ns
    \<and> (\<forall>j < length ns. \<forall>i < length ids. ids ! i = nid (ns ! j) \<longrightarrow>
          foldl stp ns (zip [0..<length input] input) ! j
            = (if i < length input
               then receiveInput (input ! i * 50 * (1 + ach)) 0 True (ns ! j) else ns ! j))
    \<and> (\<forall>j < length ns. nid (ns ! j) \<notin> set ids \<longrightarrow>
          foldl stp ns (zip [0..<length input] input) ! j = ns ! j)"
proof (induction input rule: rev_induct)
  case Nil
  show ?case by simp
next
  case (snoc x xs)
  define r where "r = foldl stp ns (zip [0..<length xs] xs)"
  have ih1: "map nid r = map nid ns"
    and ih2: "\<And>j i. j < length ns \<Longrightarrow> i < length ids \<Longrightarrow> ids ! i = nid (ns ! j) \<Longrightarrow>
          r ! j = (if i < length xs
               then receiveInput (xs ! i * 50 * (1 + ach)) 0 True (ns ! j) else ns ! j)"
    and ih3: "\<And>j. j < length ns \<Longrightarrow> nid (ns ! j) \<notin> set ids \<Longrightarrow> r ! j = ns ! j"
    using snoc.IH unfolding r_def by blast+
  have len: "length r = length ns" using ih1 by (metis length_map)
  have dr: "distinct (map nid r)" using ih1 dn by simp
  have nidr: "\<And>j. j < length ns \<Longrightarrow> nid (r ! j) = nid (ns ! j)"
    using ih1 len by (metis nth_map)
  have res: "foldl stp ns (zip [0..<length (xs @ [x])] (xs @ [x])) = stp r (length xs, x)"
    unfolding zip_upt_snoc r_def by simp
  show ?case
  proof (cases "length xs < length ids")
    case False
    then have e: "stp r (length xs, x) = r" by (simp add: stp_def)
    have "\<And>j i. j < length ns \<Longrightarrow> i < length ids \<Longrightarrow> ids ! i = nid (ns ! j) \<Longrightarrow>
          r ! j = (if i < length (xs @ [x])
               then receiveInput ((xs @ [x]) ! i * 50 * (1 + ach)) 0 True (ns ! j) else ns ! j)"
      using ih2 False by (simp add: nth_append)
    then show ?thesis unfolding res e using ih1 ih3 by blast
  next
    case True
    let ?f = "receiveInput (x * 50 * (1 + ach)) 0 True"
    let ?t = "ids ! length xs"
    have e: "stp r (length xs, x) = map (\<lambda>n. if nid n = ?t then ?f n else n) r"
      using True updateNeuron_map [OF dr] by (simp add: stp_def)
    have m1: "map nid (stp r (length xs, x)) = map nid ns"
      unfolding e using ih1 by (simp add: comp_def if_distrib cong: if_cong)
    have m2: "stp r (length xs, x) ! j
            = (if i < length (xs @ [x])
               then receiveInput ((xs @ [x]) ! i * 50 * (1 + ach)) 0 True (ns ! j) else ns ! j)"
      if j: "j < length ns" and i: "i < length ids" and ij: "ids ! i = nid (ns ! j)" for j i
    proof -
      have rj: "stp r (length xs, x) ! j = (if nid (ns ! j) = ?t then ?f (r ! j) else r ! j)"
        unfolding e using j len nidr by simp
      have iff: "nid (ns ! j) = ?t \<longleftrightarrow> i = length xs"
        using di i True ij by (metis nth_eq_iff_index_eq)
      show ?thesis
      proof (cases "i = length xs")
        case True
        then show ?thesis using rj iff ih2 [OF j i ij] by simp
      next
        case False
        then show ?thesis using rj iff ih2 [OF j i ij] by (simp add: nth_append)
      qed
    qed
    have m3: "stp r (length xs, x) ! j = ns ! j"
      if j: "j < length ns" and nj: "nid (ns ! j) \<notin> set ids" for j
    proof -
      have "nid (ns ! j) \<noteq> ?t" using nj True by (metis nth_mem)
      then show ?thesis unfolding e using j len nidr ih3 [OF j nj] by simp
    qed
    show ?thesis unfolding res using m1 m2 m3 by blast
  qed
qed

lemma injectInput_no_region:
  "map_of (regions s) ''sensory_cortex'' = None \<Longrightarrow> injectInput input s = s"
  by (simp add: injectInput_def)

lemma list3: "length xs = 3 \<Longrightarrow> xs = [xs ! 0, xs ! 1, xs ! 2]"
  by (auto simp: length_Suc_conv numeral_3_eq_3)

lemma injectInput_effect:
  assumes reg: "map_of (regions s) ''sensory_cortex'' = Some sens"
    and di: "distinct (r_neurons sens)"
    and dn: "distinct (map nid (allNeurons s))"
  shows "injectInput input s = s\<lparr> allNeurons := allNeurons (injectInput input s) \<rparr>
    \<and> length (allNeurons (injectInput input s)) = length (allNeurons s)
    \<and> (\<forall>j < length (allNeurons s). \<forall>i < length (r_neurons sens).
          r_neurons sens ! i = nid (allNeurons s ! j) \<longrightarrow>
          allNeurons (injectInput input s) ! j
            = (if i < length input
               then (allNeurons s ! j)
                      \<lparr> excitatoryInputs := excitatoryInputs (allNeurons s ! j) @
                          [\<lparr> in_time = currentTime (allNeurons s ! j),
                             in_weight = input ! i * 50 * (1 + acetylcholine s) \<rparr>] \<rparr>
               else allNeurons s ! j))
    \<and> (\<forall>j < length (allNeurons s). nid (allNeurons s ! j) \<notin> set (r_neurons sens) \<longrightarrow>
          allNeurons (injectInput input s) ! j = allNeurons s ! j)
    \<and> injectInput input s = injectInput (take (length (r_neurons sens)) input) s"
proof -
  define ids where "ids = r_neurons sens"
  define ns where "ns = allNeurons s"
  define stp where "stp = (\<lambda>ms iv. if fst iv < length ids
                       then updateNeuron (ids ! fst iv)
                              (receiveInput (snd iv * 50 * (1 + acetylcholine s)) 0 True) ms
                       else ms)"
  define R where "R = (\<lambda>inp :: real list. foldl stp ns (zip [0..<length inp] inp))"
  have all: "allNeurons (injectInput inp s) = R inp" for inp
    using reg allNeurons_foldl_injectOne [of ids s "zip [0..<length inp] inp"]
    by (simp add: injectInput_def ids_def R_def stp_def ns_def)
  have fr: "injectInput inp s = s\<lparr> allNeurons := R inp \<rparr>" for inp
    using injectInput_frame [of inp s] all [of inp] by simp
  have eff: "map nid (R inp) = map nid ns
    \<and> (\<forall>j < length ns. \<forall>i < length ids. ids ! i = nid (ns ! j) \<longrightarrow>
          R inp ! j = (if i < length inp
               then receiveInput (inp ! i * 50 * (1 + acetylcholine s)) 0 True (ns ! j)
               else ns ! j))
    \<and> (\<forall>j < length ns. nid (ns ! j) \<notin> set ids \<longrightarrow> R inp ! j = ns ! j)" for inp
  proof -
    have d1: "distinct ids" using di by (simp add: ids_def)
    have d2: "distinct (map nid ns)" using dn by (simp add: ns_def)
    show ?thesis unfolding R_def stp_def by (rule inject_list_effect [OF d1 d2])
  qed
  have len: "length (R inp) = length ns" for inp
    using eff [of inp] by (metis length_map)
  have e2: "R inp ! j = (if i < length inp
               then receiveInput (inp ! i * 50 * (1 + acetylcholine s)) 0 True (ns ! j)
               else ns ! j)"
    if "j < length ns" "i < length ids" "ids ! i = nid (ns ! j)" for inp j i
    using eff [of inp] that by blast
  have e3: "R inp ! j = ns ! j" if "j < length ns" "nid (ns ! j) \<notin> set ids" for inp j
    using eff [of inp] that by blast
  have c1: "injectInput input s = s\<lparr> allNeurons := allNeurons (injectInput input s) \<rparr>"
    using injectInput_frame by blast
  have c2: "length (allNeurons (injectInput input s)) = length (allNeurons s)"
    using injectInput_frame by blast
  have c3: "\<forall>j < length (allNeurons s). \<forall>i < length (r_neurons sens).
          r_neurons sens ! i = nid (allNeurons s ! j) \<longrightarrow>
          allNeurons (injectInput input s) ! j
            = (if i < length input
               then (allNeurons s ! j)
                      \<lparr> excitatoryInputs := excitatoryInputs (allNeurons s ! j) @
                          [\<lparr> in_time = currentTime (allNeurons s ! j),
                             in_weight = input ! i * 50 * (1 + acetylcholine s) \<rparr>] \<rparr>
               else allNeurons s ! j)"
    using e2 [where inp = input] unfolding all
    by (simp add: ids_def ns_def receiveInput_def Let_def)
  have c4: "\<forall>j < length (allNeurons s). nid (allNeurons s ! j) \<notin> set (r_neurons sens) \<longrightarrow>
          allNeurons (injectInput input s) ! j = allNeurons s ! j"
    using e3 [where inp = input] unfolding all by (simp add: ids_def ns_def)
  have "R input = R (take (length ids) input)"
  proof (rule nth_equalityI)
    show "length (R input) = length (R (take (length ids) input))" by (simp add: len)
  next
    fix j assume "j < length (R input)"
    then have j: "j < length ns" by (simp add: len)
    show "R input ! j = R (take (length ids) input) ! j"
    proof (cases "nid (ns ! j) \<in> set ids")
      case False
      then show ?thesis using e3 [OF j] by simp
    next
      case True
      then obtain i where i: "i < length ids" "ids ! i = nid (ns ! j)"
        by (metis in_set_conv_nth)
      show ?thesis
        using e2 [OF j i, of input] e2 [OF j i, of "take (length ids) input"] i(1) by simp
    qed
  qed
  then have c5: "injectInput input s = injectInput (take (length (r_neurons sens)) input) s"
    using fr [of input] fr [of "take (length ids) input"] by (simp add: ids_def)
  from c1 c2 c3 c4 c5 show ?thesis by blast
qed

subsection \<open>Retained history\<close>











subsection \<open>Neuromodulator levels\<close>

text \<open>
  C8: the four neuromodulator levels stay in \<open>[0, 1]\<close>. When they are in range (as the
  baseline 0.5 is), they are in range after \<open>updateNeuromodulators\<close>, after \<open>applyReward\<close>,
  \<open>setAttention\<close> and \<open>setArousal\<close> with any finite argument, and after any sequence of
  public calls (\<open>processInput\<close>, which runs the per-step update 1000 times, and \<open>reset\<close>
  included).
\<close>

theorem neuromodulators_in_range:
  assumes "modulatorsInRange s"
  shows "modulatorsInRange (updateNeuromodulators s)
       \<and> modulatorsInRange (applyReward reward s)
       \<and> modulatorsInRange (setAttention level s)
       \<and> modulatorsInRange (setArousal level s)
       \<and> modulatorsInRange (foldl api_step s calls)"
proof -
  have "modulatorsInRange (foldl api_step s calls)"
    using assms by (induction calls arbitrary: s) (simp_all add: api_step_range)
  moreover have "modulatorsInRange (applyReward reward s)"
    using api_step_range [OF assms, of "ApplyReward reward"] by simp
  moreover have "modulatorsInRange (setAttention level s)"
    using api_step_range [OF assms, of "SetAttention level"] by simp
  moreover have "modulatorsInRange (setArousal level s)"
    using api_step_range [OF assms, of "SetArousal level"] by simp
  ultimately show ?thesis using updateNeuromodulators_range [OF assms] by blast
qed

theorem neuromodulators_in_range_witness:
  "modulatorsInRange pairNetwork
   \<and> modulatorsInRange (updateNeuromodulators pairNetwork)
   \<and> modulatorsInRange (applyReward 10 pairNetwork)
   \<and> modulatorsInRange (setAttention 2 pairNetwork)
   \<and> modulatorsInRange (setArousal 2 pairNetwork)
   \<and> modulatorsInRange
        (foldl api_step pairNetwork
           [ApplyReward 10, ProcessInput [1, 2], SetArousal (- 1), Reset, SetAttention 3])"
proof -
  have h: "modulatorsInRange pairNetwork"
    by (simp add: modulatorsInRange_def pairNetwork_def emptyProcessor_def)
  show ?thesis
    using h neuromodulators_in_range [OF h, of 10 2
        "[ApplyReward 10, ProcessInput [1, 2], SetArousal (- 1), Reset, SetAttention 3]"]
    by blast
qed

subsection \<open>Weight bound under the plasticity pass\<close>

text \<open>
  C1: after every STDP update the weight lies within its bound, being clamped after every
  update. \<open>BiologicalNeuron.applySTDP\<close> ends with the clamp to \<open>[0, 2]\<close>
  (\<open>neuron_applySTDP_clamps\<close>), but the processor's pass multiplies the weight by
  \<open>1 + 0.01 \<sqdot> dopamine \<sqdot> acetylcholine\<close> after that call and does not clamp again, as
  \<open>applyReward\<close> does after its own scaling. On \<open>stdpState\<close> the pass takes the weight
  from 1.998 to 2.005, above the bound.
\<close>

theorem applySTDP_weight_above_bound:
  "map weight (synapses stdpState) = [999 / 500]
   \<and> map weight (synapses (applySTDP stdpState)) = [401 / 200]
   \<and> (2::real) < 401 / 200"
  by (simp add: applySTDP_def stdpSynapse_def recentSpike_def getState_def getNeuron_def
        neuron_applySTDP_def stdpState_def pairNetwork_def pairSynapse_def emptyProcessor_def
        newNeuron_def RegularSpiking_def FastSpiking_def Let_def)

subsection \<open>Eligibility traces under the plasticity pass\<close>

text \<open>
  C4, as the spec states it: on every timestep each trace of each synapse either becomes 1
  or strictly decays, also when neither neuron spiked recently. The pass calls the
  neuron's \<open>applySTDP\<close> only under \<open>if (preSpike || postSpike)\<close>: on \<open>quietState\<close>, where
  neither neuron has spiked, both traces keep their value one half.
\<close>

theorem applySTDP_trace_decay_counterexample:
  "preTrace (hd (synapses (applySTDP quietState))) \<noteq> 1
   \<and> \<not> preTrace (hd (synapses (applySTDP quietState))) < preTrace (hd (synapses quietState))
   \<and> postTrace (hd (synapses (applySTDP quietState))) \<noteq> 1
   \<and> \<not> postTrace (hd (synapses (applySTDP quietState))) < postTrace (hd (synapses quietState))"
  by (simp add: applySTDP_def stdpSynapse_def recentSpike_def getState_def getNeuron_def
        quietState_def pairNetwork_def pairSynapse_def emptyProcessor_def
        newNeuron_def Let_def)

text \<open>
  C4, amended: for a synapse whose two neurons exist, a pass on which at least one of them
  spiked within the 1 ms window sets the trace of a neuron that spiked to 1 and multiplies
  the other trace by \<open>exp (- 1 / tau)\<close>, with \<open>tau_plus\<close> for the presynaptic and
  \<open>tau_minus\<close> for the postsynaptic trace, both read from the presynaptic neuron; a pass
  on which neither spiked within the window leaves both traces as they are.
\<close>

theorem applySTDP_traces:
  assumes "i < length (synapses s)"
    and "getNeuron (preId (synapses s ! i)) (allNeurons s) = Some pre"
    and "getNeuron (postId (synapses s ! i)) (allNeurons s) = Some post"
  shows "(recentSpike s pre \<or> recentSpike s post \<longrightarrow>
            preTrace (synapses (applySTDP s) ! i)
              = (if recentSpike s pre then 1
                 else preTrace (synapses s ! i) * exp (- 1 / p_tau_plus (params pre)))
          \<and> postTrace (synapses (applySTDP s) ! i)
              = (if recentSpike s post then 1
                 else postTrace (synapses s ! i) * exp (- 1 / p_tau_minus (params pre))))
       \<and> (\<not> recentSpike s pre \<and> \<not> recentSpike s post \<longrightarrow>
            preTrace (synapses (applySTDP s) ! i) = preTrace (synapses s ! i)
          \<and> postTrace (synapses (applySTDP s) ! i) = postTrace (synapses s ! i))"
  using assms
  by (simp add: applySTDP_def stdpSynapse_def neuron_applySTDP_def Let_def)

theorem applySTDP_traces_witness:
  "preTrace (synapses (applySTDP stdpState) ! 0) = 1
   \<and> postTrace (synapses (applySTDP stdpState) ! 0) = exp (- 1 / 20) / 2
   \<and> preTrace (synapses (applySTDP quietState) ! 0) = 1 / 2
   \<and> postTrace (synapses (applySTDP quietState) ! 0) = 1 / 2"
proof -
  let ?pre = "(newNeuron ''hippocampus_1'' pyramidal RegularSpiking)\<lparr> lastSpikeTime := Num 10 \<rparr>"
  let ?post = "(newNeuron ''hippocampus_0'' interneuron FastSpiking)\<lparr> lastSpikeTime := Num 2 \<rparr>"
  let ?qpost = "newNeuron ''hippocampus_0'' interneuron FastSpiking"
  let ?qpre = "newNeuron ''hippocampus_1'' pyramidal RegularSpiking"
  have a: "0 < length (synapses stdpState)"
    "getNeuron (preId (synapses stdpState ! 0)) (allNeurons stdpState) = Some ?pre"
    "getNeuron (postId (synapses stdpState ! 0)) (allNeurons stdpState) = Some ?post"
    by (simp_all add: stdpState_def pairNetwork_def pairSynapse_def emptyProcessor_def
          getNeuron_def newNeuron_def)
  have b: "0 < length (synapses quietState)"
    "getNeuron (preId (synapses quietState ! 0)) (allNeurons quietState) = Some ?qpre"
    "getNeuron (postId (synapses quietState ! 0)) (allNeurons quietState) = Some ?qpost"
    by (simp_all add: quietState_def pairNetwork_def pairSynapse_def emptyProcessor_def
          getNeuron_def newNeuron_def)
  have ra: "recentSpike stdpState ?pre" "\<not> recentSpike stdpState ?post"
    by (simp_all add: recentSpike_def getState_def stdpState_def newNeuron_def)
  have rb: "\<not> recentSpike quietState ?qpre" "\<not> recentSpike quietState ?qpost"
    by (simp_all add: recentSpike_def getState_def quietState_def newNeuron_def)
  have pa: "preTrace (synapses stdpState ! 0) = 1" "postTrace (synapses stdpState ! 0) = 1 / 2"
    "p_tau_minus (params (newNeuron ''hippocampus_1'' pyramidal RegularSpiking)) = 20"
    by (simp_all add: stdpState_def pairSynapse_def newNeuron_def RegularSpiking_def)
  have pb: "preTrace (synapses quietState ! 0) = 1 / 2" "postTrace (synapses quietState ! 0) = 1 / 2"
    by (simp_all add: quietState_def pairSynapse_def)
  show ?thesis
    using applySTDP_traces [OF a] applySTDP_traces [OF b] ra rb
    by (simp add: pa pb)
qed

subsection \<open>reset\<close>

text \<open>
  C3, as the spec states it: \<open>reset\<close> returns every neuron's spike time and all three
  oscillator phases to their initial values. \<open>reset\<close> assigns neither: on \<open>usedState\<close>
  the phases stay at 1, 2 and 3 (initially 0) and the spike time of the second neuron
  stays 42 (initially \<open>-Infinity\<close>).
\<close>

theorem reset_keeps_phase_and_spike_time_counterexample:
  "phase (theta (reset usedState)) \<noteq> phase (theta emptyProcessor)
   \<and> phase (gamma (reset usedState)) \<noteq> phase (gamma emptyProcessor)
   \<and> phase (alpha (reset usedState)) \<noteq> phase (alpha emptyProcessor)
   \<and> map lastSpikeTime (allNeurons (reset usedState)) = [NegInf, Num 42]
   \<and> lastSpikeTime (newNeuron ''hippocampus_1'' pyramidal RegularSpiking) = NegInf"
  by (simp add: reset_def neuron_reset_def usedState_def pairNetwork_def emptyProcessor_def
        newNeuron_def)

text \<open>
  C3, amended: \<open>reset\<close> sets every neuron's \<open>V\<close> to its leak potential, its \<open>w\<close>, spike
  trace and synaptic current to 0, empties both of its input queues and sets its clock
  to 0; it empties the spike and activity histories, sets the global time to 0 and the
  four neuromodulator levels to 0.5; it leaves the three oscillators, every synapse
  (weight and both traces) and the topology (neuron ids, types and parameters, regions)
  unchanged.
\<close>

theorem reset_effect:
  "(\<forall>nr \<in> set (allNeurons (reset s)).
       n_V nr = p_EL (params nr) \<and> n_w nr = 0 \<and> spikeTrace nr = 0 \<and> synapticCurrent nr = 0
       \<and> excitatoryInputs nr = [] \<and> inhibitoryInputs nr = [] \<and> currentTime nr = 0)
   \<and> map nid (allNeurons (reset s)) = map nid (allNeurons s)
   \<and> map ntype (allNeurons (reset s)) = map ntype (allNeurons s)
   \<and> map params (allNeurons (reset s)) = map params (allNeurons s)
   \<and> spikes (reset s) = [] \<and> activities (reset s) = [] \<and> globalTime (reset s) = 0
   \<and> dopamine (reset s) = 0.5 \<and> serotonin (reset s) = 0.5
   \<and> acetylcholine (reset s) = 0.5 \<and> norepinephrine (reset s) = 0.5
   \<and> theta (reset s) = theta s \<and> gamma (reset s) = gamma s \<and> alpha (reset s) = alpha s
   \<and> synapses (reset s) = synapses s \<and> regions (reset s) = regions s
   \<and> proc_dt (reset s) = proc_dt s"
  by (auto simp add: reset_def neuron_reset_def)

theorem reset_effect_witness:
  "map n_V (allNeurons (reset usedState)) = [- 65, - 70]
   \<and> map n_w (allNeurons (reset usedState)) = [0, 0]
   \<and> map excitatoryInputs (allNeurons (reset usedState)) = [[], []]
   \<and> spikes (reset usedState) = [] \<and> activities (reset usedState) = []
   \<and> dopamine (reset usedState) = 0.5
   \<and> phase (theta (reset usedState)) = 1
   \<and> map weight (synapses (reset usedState)) = [0.7]
   \<and> map preTrace (synapses (reset usedState)) = [0.4]"
proof -
  have a: "allNeurons (reset usedState)
      = [neuron_reset (newNeuron ''hippocampus_0'' interneuron FastSpiking),
         neuron_reset ((newNeuron ''hippocampus_1'' pyramidal RegularSpiking)
                          \<lparr> n_V := - 60, n_w := 3, lastSpikeTime := Num 42, spikeTrace := 0.2,
                            currentTime := 50, synapticCurrent := 4,
                            excitatoryInputs := [\<lparr> in_time = 51, in_weight = 7 \<rparr>] \<rparr>)]"
    by (simp add: reset_def usedState_def)
  have p: "map (\<lambda>nr. p_EL (params nr)) (allNeurons (reset usedState)) = [- 65, - 70]"
    unfolding a by (simp add: neuron_reset_def newNeuron_def FastSpiking_def RegularSpiking_def)
  have u: "theta usedState = \<lparr> phase = 1, frequency = 7 \<rparr>"
    "synapses usedState = [pairSynapse\<lparr> weight := 0.7, preTrace := 0.4, postTrace := 0.1 \<rparr>]"
    by (simp_all add: usedState_def)
  show ?thesis
    using reset_effect [of usedState] p unfolding a
    by (simp add: u)
qed

subsection \<open>Input injection\<close>

text \<open>
  C10: in a processor whose neuron ids are pairwise different and whose region
  \<open>sensory_cortex\<close> lists pairwise different ids, the step loop of \<open>processInput\<close> starts
  from the processor in which the \<open>i\<close>-th sensory neuron, for every \<open>i\<close> below both the
  input length and the number of sensory neurons, has one more excitatory input of
  amplitude \<open>input[i] \<sqdot> 50 \<sqdot> (1 + acetylcholine)\<close> arriving at the neuron's current time,
  every other neuron is as before and both histories are empty; the components at or
  beyond the number of sensory neurons have no effect on the call.
\<close>

theorem processInput_injection:
  assumes reg: "map_of (regions s) ''sensory_cortex'' = Some sens"
    and di: "distinct (r_neurons sens)"
    and dn: "distinct (map nid (allNeurons s))"
  shows "(\<exists>ns.
      processInput input s
        = foldl simStep (s\<lparr> activities := [], spikes := [], allNeurons := ns \<rparr>) [0..<1000]
    \<and> length ns = length (allNeurons s)
    \<and> (\<forall>j < length (allNeurons s). \<forall>i < length (r_neurons sens).
          r_neurons sens ! i = nid (allNeurons s ! j) \<longrightarrow>
          ns ! j
            = (if i < length input
               then (allNeurons s ! j)
                      \<lparr> excitatoryInputs := excitatoryInputs (allNeurons s ! j) @
                          [\<lparr> in_time = currentTime (allNeurons s ! j),
                             in_weight = input ! i * 50 * (1 + acetylcholine s) \<rparr>] \<rparr>
               else allNeurons s ! j))
    \<and> (\<forall>j < length (allNeurons s). nid (allNeurons s ! j) \<notin> set (r_neurons sens) \<longrightarrow>
          ns ! j = allNeurons s ! j))
    \<and> processInput input s = processInput (take (length (r_neurons sens)) input) s"
proof -
  let ?c = "s\<lparr> activities := [], spikes := [] \<rparr>"
  let ?ns = "allNeurons (injectInput input ?c)"
  have reg': "map_of (regions ?c) ''sensory_cortex'' = Some sens" using reg by simp
  have dn': "distinct (map nid (allNeurons ?c))" using dn by simp
  note e = injectInput_effect [OF reg' di dn', of input]
  note e2 = e [THEN conjunct2, THEN conjunct1]
  note e3 = e [THEN conjunct2, THEN conjunct2, THEN conjunct1]
  note e4 = e [THEN conjunct2, THEN conjunct2, THEN conjunct2, THEN conjunct1]
  note e5 = e [THEN conjunct2, THEN conjunct2, THEN conjunct2, THEN conjunct2]
  have e1: "injectInput input ?c = ?c\<lparr> allNeurons := ?ns \<rparr>"
    by (rule e [THEN conjunct1])
  then have "injectInput input ?c = s\<lparr> activities := [], spikes := [], allNeurons := ?ns \<rparr>"
    by simp
  then have p1: "processInput input s
        = foldl simStep (s\<lparr> activities := [], spikes := [], allNeurons := ?ns \<rparr>) [0..<1000]"
    by (simp only: processInput_def)
  have p2: "length ?ns = length (allNeurons s)" using e2 by simp
  have p3: "\<forall>j < length (allNeurons s). \<forall>i < length (r_neurons sens).
          r_neurons sens ! i = nid (allNeurons s ! j) \<longrightarrow>
          ?ns ! j
            = (if i < length input
               then (allNeurons s ! j)
                      \<lparr> excitatoryInputs := excitatoryInputs (allNeurons s ! j) @
                          [\<lparr> in_time = currentTime (allNeurons s ! j),
                             in_weight = input ! i * 50 * (1 + acetylcholine s) \<rparr>] \<rparr>
               else allNeurons s ! j)"
    using e3 by simp
  have p4: "\<forall>j < length (allNeurons s). nid (allNeurons s ! j) \<notin> set (r_neurons sens) \<longrightarrow>
          ?ns ! j = allNeurons s ! j"
    using e4 by simp
  have "injectInput input ?c = injectInput (take (length (r_neurons sens)) input) ?c"
    by (rule e5)
  then have p5: "processInput input s = processInput (take (length (r_neurons sens)) input) s"
    by (simp only: processInput_def)
  from p1 p2 p3 p4 p5 show ?thesis by blast
qed

theorem processInput_injection_witness:
  "processInput [1, 2, 3] sensoryNetwork
     = foldl simStep
         (sensoryNetwork
            \<lparr> activities := [], spikes := [],
              allNeurons :=
                [(newNeuron ''sensory_cortex_0'' interneuron FastSpiking)
                   \<lparr> excitatoryInputs := [\<lparr> in_time = 0, in_weight = 75 \<rparr>] \<rparr>,
                 (newNeuron ''sensory_cortex_1'' sensory Adapting)
                   \<lparr> excitatoryInputs := [\<lparr> in_time = 0, in_weight = 150 \<rparr>] \<rparr>,
                 newNeuron ''thalamus_1'' pyramidal RegularSpiking] \<rparr>)
         [0..<1000]
   \<and> processInput [1, 2, 3] sensoryNetwork = processInput [1, 2] sensoryNetwork"
proof -
  let ?sens = "\<lparr> r_name = ''sensory_cortex'',
              r_neurons = [''sensory_cortex_0'', ''sensory_cortex_1''],
              r_function = ''Input processing and feature detection'' \<rparr>"
  have reg: "map_of (regions sensoryNetwork) ''sensory_cortex'' = Some ?sens"
    by (simp add: sensoryNetwork_def emptyProcessor_def)
  have di: "distinct (r_neurons ?sens)" by simp
  have nl: "allNeurons sensoryNetwork = [newNeuron ''sensory_cortex_0'' interneuron FastSpiking,
                        newNeuron ''sensory_cortex_1'' sensory Adapting,
                        newNeuron ''thalamus_1'' pyramidal RegularSpiking]"
    by (simp add: sensoryNetwork_def emptyProcessor_def)
  have dn: "distinct (map nid (allNeurons sensoryNetwork))"
    unfolding nl by (simp add: newNeuron_def)
  have ach: "acetylcholine sensoryNetwork = 1 / 2"
    by (simp add: sensoryNetwork_def emptyProcessor_def)
  note t = processInput_injection [OF reg di dn, of "[1, 2, 3]"]
  obtain ms where
    q1: "processInput [1, 2, 3] sensoryNetwork
        = foldl simStep (sensoryNetwork\<lparr> activities := [], spikes := [], allNeurons := ms \<rparr>)
            [0..<1000]"
    and q2: "length ms = length (allNeurons sensoryNetwork)"
    and q3: "\<forall>j < length (allNeurons sensoryNetwork). \<forall>i < length (r_neurons ?sens).
          r_neurons ?sens ! i = nid (allNeurons sensoryNetwork ! j) \<longrightarrow>
          ms ! j
            = (if i < length [1, 2, 3 :: real]
               then (allNeurons sensoryNetwork ! j)
                      \<lparr> excitatoryInputs := excitatoryInputs (allNeurons sensoryNetwork ! j) @
                          [\<lparr> in_time = currentTime (allNeurons sensoryNetwork ! j),
                             in_weight = [1, 2, 3] ! i * 50 * (1 + acetylcholine sensoryNetwork) \<rparr>] \<rparr>
               else allNeurons sensoryNetwork ! j)"
    and q4: "\<forall>j < length (allNeurons sensoryNetwork).
          nid (allNeurons sensoryNetwork ! j) \<notin> set (r_neurons ?sens) \<longrightarrow>
          ms ! j = allNeurons sensoryNetwork ! j"
    using t [THEN conjunct1] by blast
  have l: "length ms = 3" using q2 unfolding nl by simp
  have n0: "ms ! 0 = (newNeuron ''sensory_cortex_0'' interneuron FastSpiking)
          \<lparr> excitatoryInputs := [\<lparr> in_time = 0, in_weight = 75 \<rparr>] \<rparr>"
    using q3 [rule_format, of 0 0] by (simp add: nl ach newNeuron_def)
  have n1: "ms ! 1 = (newNeuron ''sensory_cortex_1'' sensory Adapting)
          \<lparr> excitatoryInputs := [\<lparr> in_time = 0, in_weight = 150 \<rparr>] \<rparr>"
    using q3 [rule_format, of 1 1] by (simp add: nl ach newNeuron_def)
  have n2: "ms ! 2 = newNeuron ''thalamus_1'' pyramidal RegularSpiking"
    using q4 [rule_format, of 2] by (simp add: nl newNeuron_def)
  have "ms = [ms ! 0, ms ! 1, ms ! 2]" using l by (rule list3)
  then have ms: "ms = [(newNeuron ''sensory_cortex_0'' interneuron FastSpiking)
                   \<lparr> excitatoryInputs := [\<lparr> in_time = 0, in_weight = 75 \<rparr>] \<rparr>,
                 (newNeuron ''sensory_cortex_1'' sensory Adapting)
                   \<lparr> excitatoryInputs := [\<lparr> in_time = 0, in_weight = 150 \<rparr>] \<rparr>,
                 newNeuron ''thalamus_1'' pyramidal RegularSpiking]"
    unfolding n0 n1 n2 .
  have "take (length (r_neurons ?sens)) [1, 2, 3 :: real] = [1, 2]" by simp
  then have tk: "processInput [1, 2, 3] sensoryNetwork = processInput [1, 2] sensoryNetwork"
    using t [THEN conjunct2] by (simp only:)
  show ?thesis using q1 tk unfolding ms by (rule conjI)
qed

end
